theory Spec2Isabelle
  imports Complex_Main "HOL-Library.Word" "HOL-Library.Monad_Syntax"
begin

unbundle bit_operations_syntax

section \<open>Type registry and beats rules\<close>

text \<open>
  \<^verbatim>\<open>TypeIds = TypeRegistry.map(t => t.id)\<close>: the ids of the five registered types, in
  registry order. An entity stores the index of its type in this list.
\<close>

definition TypeIds :: "string list" where
  "TypeIds = [''circle'', ''square'', ''triangle'', ''lizard'', ''spock'']"

text \<open>
  \<^verbatim>\<open>beatsMap = new Map(Object.entries(beats).map(([k, arr]) => [k, new Set(arr)]))\<close>.
  The map is kept as the list of its entries, in insertion order (the order in which
  \<^verbatim>\<open>for (const [a, outs] of beatsMap)\<close> visits them); the keys of an object literal are
  distinct. A defeat set is kept as the list of its members.
\<close>

type_synonym beats_map = "(string \<times> string list) list"

definition beatsMap :: beats_map where
  "beatsMap =
     [(''circle'', [''triangle'', ''lizard'']),
      (''square'', [''circle'', ''spock'']),
      (''triangle'', [''square'', ''lizard'']),
      (''lizard'', [''spock'', ''square'']),
      (''spock'', [''triangle'', ''circle''])]"

text \<open>\<^verbatim>\<open>bm.get(a)?.has(b)\<close>: false when \<^verbatim>\<open>a\<close> is not a key of the map.\<close>

definition getHas :: "beats_map \<Rightarrow> string \<Rightarrow> string \<Rightarrow> bool" where
  "getHas bm a b = (case map_of bm a of None \<Rightarrow> False | Some outs \<Rightarrow> b \<in> set outs)"

datatype config_error =
    UnknownType string
  | UnknownTarget string string
  | SelfBeat string
  | Conflict string string

text \<open>
  The body of \<^verbatim>\<open>outs.forEach(b => ...)\<close> in \<^verbatim>\<open>validateRules\<close>, for the key \<^verbatim>\<open>a\<close>: the
  first failing check throws.
\<close>

fun checkTargets :: "string list \<Rightarrow> beats_map \<Rightarrow> string \<Rightarrow> string list \<Rightarrow> config_error + unit" where
  "checkTargets ids bm a [] = Inr ()"
| "checkTargets ids bm a (b # bs) =
     (if b \<notin> set ids then Inl (UnknownTarget b a)
      else if b = a then Inl (SelfBeat a)
      else if getHas bm b a then Inl (Conflict a b)
      else checkTargets ids bm a bs)"

text \<open>The loop \<^verbatim>\<open>for (const [a, outs] of beatsMap)\<close> of \<^verbatim>\<open>validateRules\<close>.\<close>

fun validateEntries :: "string list \<Rightarrow> beats_map \<Rightarrow> beats_map \<Rightarrow> config_error + unit" where
  "validateEntries ids bm [] = Inr ()"
| "validateEntries ids bm ((a, outs) # rest) =
     (if a \<notin> set ids then Inl (UnknownType a)
      else (case checkTargets ids bm a outs of
              Inl e \<Rightarrow> Inl e
            | Inr _ \<Rightarrow> validateEntries ids bm rest))"

text \<open>
  \<^verbatim>\<open>validateRules\<close>, with the two globals it reads (\<^verbatim>\<open>TypeIds\<close>, \<^verbatim>\<open>beatsMap\<close>) as
  parameters, and at the configured globals.
\<close>

definition validateRulesOn :: "string list \<Rightarrow> beats_map \<Rightarrow> config_error + unit" where
  "validateRulesOn ids bm = validateEntries ids bm bm"

definition validateRules :: "config_error + unit" where
  "validateRules = validateRulesOn TypeIds beatsMap"

text \<open>
  \<^verbatim>\<open>winnerOf(aId, bId)\<close>, with the global \<^verbatim>\<open>beatsMap\<close> as a parameter, and at the
  configured map. \<^verbatim>\<open>null\<close> is \<open>None\<close>.
\<close>

definition winnerOfIn :: "beats_map \<Rightarrow> string \<Rightarrow> string \<Rightarrow> string option" where
  "winnerOfIn bm aId bId =
     (if aId = bId then None
      else if getHas bm aId bId then Some aId
      else if getHas bm bId aId then Some bId
      else None)"

definition winnerOf :: "string \<Rightarrow> string \<Rightarrow> string option" where
  "winnerOf aId bId = winnerOfIn beatsMap aId bId"

text \<open>
  The defeat set of a type id, as the specification speaks of it: the members of the
  set stored under that key, and the empty set for an id that is not a key.
\<close>

definition defeatSetIn :: "beats_map \<Rightarrow> string \<Rightarrow> string set" where
  "defeatSetIn bm a = (case map_of bm a of None \<Rightarrow> {} | Some outs \<Rightarrow> set outs)"


section \<open>Numbers\<close>

text \<open>
  JavaScript numbers are IEEE doubles. Positions, velocities, radii and times are
  modelled as real numbers: the model is the program with exact arithmetic, without
  rounding, overflow, NaN or infinities. Where the program would divide or take a
  remainder by zero, HOL's total operations return a value instead; the function
  \<open>narrowPhase_checked\<close> below makes those places explicit. The 32-bit integer
  operations of the random generator (\<^verbatim>\<open>Math.imul\<close>, \<^verbatim>\<open>^\<close>, \<^verbatim>\<open>|\<close>, \<^verbatim>\<open>>>>\<close>) are
  modelled exactly, on 32-bit words. A string is the list of its UTF-16 code units,
  which is what \<^verbatim>\<open>charCodeAt\<close>, \<^verbatim>\<open>length\<close> and \<^verbatim>\<open>slice\<close> see.
\<close>

type_synonym u32 = "32 word"
type_synonym jsstring = "16 word list"

definition codeUnits :: "string \<Rightarrow> jsstring" where
  "codeUnits s = map of_char s"

definition MAX_ENTITIES_PER_TYPE :: int where "MAX_ENTITIES_PER_TYPE = 500"
definition MAX_SEED_LEN :: nat where "MAX_SEED_LEN = 128"
definition MAX_TOTAL_ENTITIES :: int where "MAX_TOTAL_ENTITIES = 1200"

definition REST :: real where "REST = 1"
definition VMAX :: real where "VMAX = 600"
definition EPS :: real where "EPS = 1 / 1000"

section \<open>Entities and the world\<close>

text \<open>
  The fields of \<^verbatim>\<open>class Entity\<close>: \<^verbatim>\<open>_id\<close>, \<^verbatim>\<open>t\<close> (index into the type registry),
  \<^verbatim>\<open>x\<close>, \<^verbatim>\<open>y\<close>, \<^verbatim>\<open>r\<close>, \<^verbatim>\<open>vx\<close>, \<^verbatim>\<open>vy\<close>, \<^verbatim>\<open>mass\<close>, \<^verbatim>\<open>side\<close>, \<^verbatim>\<open>base\<close>.
\<close>

record entity =
  e_id :: nat
  e_t :: nat
  e_x :: real
  e_y :: real
  e_r :: real
  e_vx :: real
  e_vy :: real
  e_mass :: real
  e_side :: real
  e_base :: real

text \<open>
  The global variables the engine reads and writes. \<open>rng\<close> is the variable \<^verbatim>\<open>a\<close>
  captured by the closure that \<^verbatim>\<open>mulberry32\<close> returned: the whole state of the
  current generator. An entity object is identified by its position in \<open>entities\<close>.
\<close>

record world =
  VIEW_W :: real
  VIEW_H :: real
  CELL :: real
  GW :: int
  GH :: int
  WRAP_ACTIVE :: bool
  entities :: "entity list"
  ENTITY_ID :: nat
  rngSeedStr :: jsstring
  rng :: int

text \<open>The constructor of \<^verbatim>\<open>Entity\<close>; the caller passes and then increments \<^verbatim>\<open>ENTITY_ID\<close>.\<close>

definition Entity :: "nat \<Rightarrow> nat \<Rightarrow> real \<Rightarrow> real \<Rightarrow> real \<Rightarrow> real \<Rightarrow> real \<Rightarrow> entity" where
  "Entity next_id typeIndex x y r vx vy =
     \<lparr>e_id = next_id, e_t = typeIndex, e_x = x, e_y = y, e_r = r, e_vx = vx, e_vy = vy,
      e_mass = r * r, e_side = r * sqrt 2, e_base = r * 2\<rparr>"

section \<open>Seeded random numbers\<close>

text \<open>
  \<^verbatim>\<open>xfnv1a\<close>: \<^verbatim>\<open>h ^= str.charCodeAt(i); h = Math.imul(h, 0x01000193)\<close> for every code
  unit, from \<^verbatim>\<open>0x811c9dc5\<close>; the result \<^verbatim>\<open>h >>> 0\<close> is the unsigned value.
\<close>

fun xfnv1a_loop :: "u32 \<Rightarrow> jsstring \<Rightarrow> u32" where
  "xfnv1a_loop h [] = h"
| "xfnv1a_loop h (c # cs) = xfnv1a_loop ((h XOR ucast c) * 0x01000193) cs"

definition xfnv1a :: "jsstring \<Rightarrow> int" where
  "xfnv1a str = uint (xfnv1a_loop 0x811c9dc5 str)"

text \<open>
  In \<^verbatim>\<open>mulberry32\<close> the state \<^verbatim>\<open>a\<close> is a number, and \<^verbatim>\<open>a += 0x6D2B79F5\<close> is an addition
  of doubles, not of 32-bit integers: the state grows, and from \<open>2 ^ 53\<close> on the sum is
  rounded to the nearest double (ties to even). \<open>toDouble n\<close> is that rounding of a
  non-negative integer \<open>n\<close>: \<open>ulpExp n\<close> is the number of low bits that a 53-bit
  significand cannot hold.
\<close>

function ulpExp :: "int \<Rightarrow> nat" where
  "ulpExp n = (if n < 2 ^ 53 then 0 else Suc (ulpExp (n div 2)))"
  by pat_completeness auto
termination
  by (relation "measure nat") auto

definition toDouble :: "int \<Rightarrow> int" where
  "toDouble n =
     (let k = ulpExp n; q = n div 2 ^ k; r = n mod 2 ^ k
      in if 2 * r > 2 ^ k \<or> (2 * r = 2 ^ k \<and> odd q) then (q + 1) * 2 ^ k else q * 2 ^ k)"

text \<open>
  One call of the generator: the output and the new state. The bit operations see the
  state modulo \<open>2 ^ 32\<close> (\<open>word_of_int\<close>); \<^verbatim>\<open>>>>\<close> is the logical shift \<open>drop_bit\<close>.
\<close>

definition mulberry32 :: "int \<Rightarrow> real \<times> int" where
  "mulberry32 a =
     (let a' = toDouble (a + 0x6D2B79F5);
          t0 = (word_of_int a' :: u32);
          t1 = (t0 XOR drop_bit 15 t0) * (t0 OR 1);
          t2 = t1 XOR (t1 + (t1 XOR drop_bit 7 t1) * (t1 OR 61))
      in (real (unat (t2 XOR drop_bit 14 t2)) / 4294967296, a'))"

text \<open>The first \<open>n\<close> outputs of the generator whose state is \<open>a\<close>.\<close>

fun rngDraws :: "nat \<Rightarrow> int \<Rightarrow> real list" where
  "rngDraws 0 a = []"
| "rngDraws (Suc n) a = (case mulberry32 a of (v, a') \<Rightarrow> v # rngDraws n a')"

text \<open>
  \<^verbatim>\<open>setSeed\<close>: the seed is cut to \<^verbatim>\<open>MAX_SEED_LEN\<close> code units and a new generator
  replaces the current one. \<open>setSeed_truncated\<close> is the condition of the toast.
\<close>

definition setSeed_truncated :: "jsstring \<Rightarrow> bool" where
  "setSeed_truncated str = (length (take MAX_SEED_LEN str) \<noteq> length str)"

definition setSeed :: "jsstring \<Rightarrow> world \<Rightarrow> world" where
  "setSeed str w =
     (let safe = take MAX_SEED_LEN str
      in w\<lparr>rngSeedStr := safe, rng := xfnv1a safe\<rparr>)"

text \<open>\<^verbatim>\<open>rng()\<close> on the current generator.\<close>

definition rngNext :: "world \<Rightarrow> real \<times> world" where
  "rngNext w = (case mulberry32 (rng w) of (v, a') \<Rightarrow> (v, w\<lparr>rng := a'\<rparr>))"

section \<open>Motion\<close>

text \<open>
  The remainder operator \<^verbatim>\<open>n % m\<close> on numbers truncates the quotient towards zero, and
  \<^verbatim>\<open>mod = (n, m) => ((n % m) + m) % m\<close>.
\<close>

definition trunc :: "real \<Rightarrow> int" where
  "trunc q = (if q < 0 then \<lceil>q\<rceil> else \<lfloor>q\<rfloor>)"

definition jsrem :: "real \<Rightarrow> real \<Rightarrow> real" where
  "jsrem n m = n - m * of_int (trunc (n / m))"

definition mod_js :: "real \<Rightarrow> real \<Rightarrow> real" where
  "mod_js n m = jsrem (jsrem n m + m) m"

text \<open>\<^verbatim>\<open>clampVel(e)\<close>.\<close>

definition clampVel :: "entity \<Rightarrow> entity" where
  "clampVel e =
     (let v2 = e_vx e * e_vx e + e_vy e * e_vy e
      in if v2 > VMAX * VMAX
         then (let s = VMAX / sqrt v2 in e\<lparr>e_vx := e_vx e * s, e_vy := e_vy e * s\<rparr>)
         else e)"

text \<open>The four wall tests of \<^verbatim>\<open>Entity.update\<close>, in the order of the source.\<close>

definition bounce :: "real \<Rightarrow> real \<Rightarrow> entity \<Rightarrow> entity" where
  "bounce w h e =
     (let e1 = (if e_x e - e_r e < 0 then e\<lparr>e_x := e_r e, e_vx := \<bar>e_vx e\<bar>\<rparr> else e);
          e2 = (if e_x e1 + e_r e1 > w then e1\<lparr>e_x := w - e_r e1, e_vx := - \<bar>e_vx e1\<bar>\<rparr> else e1);
          e3 = (if e_y e2 - e_r e2 < 0 then e2\<lparr>e_y := e_r e2, e_vy := \<bar>e_vy e2\<bar>\<rparr> else e2);
          e4 = (if e_y e3 + e_r e3 > h then e3\<lparr>e_y := h - e_r e3, e_vy := - \<bar>e_vy e3\<bar>\<rparr> else e3)
      in e4)"

text \<open>\<^verbatim>\<open>Entity.update(w, h, dt, spd, wrap)\<close>.\<close>

definition update :: "real \<Rightarrow> real \<Rightarrow> real \<Rightarrow> real \<Rightarrow> bool \<Rightarrow> entity \<Rightarrow> entity" where
  "update w h dt spd wrap e =
     (let adv = dt * spd;
          e1 = e\<lparr>e_x := e_x e + e_vx e * adv, e_y := e_y e + e_vy e * adv\<rparr>;
          e2 = (if wrap then e1\<lparr>e_x := mod_js (e_x e1) w, e_y := mod_js (e_y e1) h\<rparr>
                else bounce w h e1)
      in clampVel e2)"

section \<open>Narrow phase\<close>

text \<open>\<^verbatim>\<open>periodicDelta(ax, ay, bx, by)\<close>.\<close>

definition periodicDelta :: "world \<Rightarrow> real \<Rightarrow> real \<Rightarrow> real \<Rightarrow> real \<Rightarrow> real \<times> real" where
  "periodicDelta w ax ay bx by =
     (let dx = bx - ax; dy = by - ay
      in if WRAP_ACTIVE w
         then ((if dx > VIEW_W w / 2 then dx - VIEW_W w
                else if dx < - VIEW_W w / 2 then dx + VIEW_W w else dx),
               (if dy > VIEW_H w / 2 then dy - VIEW_H w
                else if dy < - VIEW_H w / 2 then dy + VIEW_H w else dy))
         else (dx, dy))"

text \<open>
  The test at the head of \<^verbatim>\<open>narrowPhase\<close>: the pair is rejected, and nothing changes,
  when \<^verbatim>\<open>dist2 > minDist * minDist\<close>.
\<close>

definition overlapping :: "world \<Rightarrow> entity \<Rightarrow> entity \<Rightarrow> bool" where
  "overlapping w a b =
     (case periodicDelta w (e_x a) (e_y a) (e_x b) (e_y b) of (dx, dy) \<Rightarrow>
        \<not> dx * dx + dy * dy > (e_r a + e_r b) * (e_r a + e_r b))"

text \<open>
  The conversion of \<^verbatim>\<open>narrowPhase\<close>:
  \<^verbatim>\<open>if (winId) { if (winId === aId) b.t = a.t; else a.t = b.t; }\<close>, where the ids are
  \<^verbatim>\<open>TypeRegistry[a.t].id\<close> and \<^verbatim>\<open>TypeRegistry[b.t].id\<close>. \<^verbatim>\<open>null\<close> and the empty string
  are the falsy results. The type indices are taken to be indices of the registry, as
  every spawned entity's is; outside it the program throws a TypeError, and the theorems
  below that depend on the ids assume the indices valid.
\<close>

definition convert :: "entity \<Rightarrow> entity \<Rightarrow> entity \<times> entity" where
  "convert a b =
     (let aId = TypeIds ! e_t a; bId = TypeIds ! e_t b
      in case winnerOf aId bId of
           None \<Rightarrow> (a, b)
         | Some winId \<Rightarrow>
             if winId = [] then (a, b)
             else if winId = aId then (a, b\<lparr>e_t := e_t a\<rparr>)
             else (a\<lparr>e_t := e_t b\<rparr>, b))"

text \<open>
  \<^verbatim>\<open>Math.sqrt(dist2) || 0.0001\<close>: the right operand replaces a left operand that is
  zero.
\<close>

definition safeDist :: "real \<Rightarrow> real" where
  "safeDist dist2 = (if sqrt dist2 = 0 then 1 / 10000 else sqrt dist2)"

text \<open>
  The separation of \<^verbatim>\<open>narrowPhase\<close>: \<^verbatim>\<open>dist\<close>, the normal, the overlap, the
  displacement of both entities by half of it and, in wrap mode, the wrap of the new
  positions. The result carries the normal for the velocity response.
\<close>

definition separate ::
  "world \<Rightarrow> real \<Rightarrow> real \<Rightarrow> real \<Rightarrow> real \<Rightarrow> entity \<Rightarrow> entity \<Rightarrow> (real \<times> real) \<times> entity \<times> entity" where
  "separate w dx dy minDist dist2 a b =
     (let dist = safeDist dist2;
          nx = dx / dist; ny = dy / dist;
          overlap = max 0 ((minDist - dist) + EPS);
          a1 = a\<lparr>e_x := e_x a - nx * overlap / 2, e_y := e_y a - ny * overlap / 2\<rparr>;
          b1 = b\<lparr>e_x := e_x b + nx * overlap / 2, e_y := e_y b + ny * overlap / 2\<rparr>
      in if WRAP_ACTIVE w
         then ((nx, ny),
               a1\<lparr>e_x := mod_js (e_x a1) (VIEW_W w), e_y := mod_js (e_y a1) (VIEW_H w)\<rparr>,
               b1\<lparr>e_x := mod_js (e_x b1) (VIEW_W w), e_y := mod_js (e_y b1) (VIEW_H w)\<rparr>)
         else ((nx, ny), a1, b1))"

text \<open>The velocity response of \<^verbatim>\<open>narrowPhase\<close>, with the two calls of \<^verbatim>\<open>clampVel\<close>.\<close>

definition respond :: "real \<Rightarrow> real \<Rightarrow> entity \<Rightarrow> entity \<Rightarrow> entity \<times> entity" where
  "respond nx ny a b =
     (let va = e_vx a * nx + e_vy a * ny; vb = e_vx b * nx + e_vy b * ny;
          ma = e_mass a; mb = e_mass b;
          vaAfter = (va * (ma - mb) + 2 * mb * vb) / (ma + mb);
          vbAfter = (vb * (mb - ma) + 2 * ma * va) / (ma + mb);
          dvA = (vaAfter - va) * REST; dvB = (vbAfter - vb) * REST;
          a1 = a\<lparr>e_vx := e_vx a + dvA * nx, e_vy := e_vy a + dvA * ny\<rparr>;
          b1 = b\<lparr>e_vx := e_vx b + dvB * nx, e_vy := e_vy b + dvB * ny\<rparr>
      in (clampVel a1, clampVel b1))"

text \<open>
  \<^verbatim>\<open>narrowPhase(a, b)\<close>: the two objects are mutated in place; the model returns their
  new values.
\<close>

definition narrowPhase :: "world \<Rightarrow> entity \<Rightarrow> entity \<Rightarrow> entity \<times> entity" where
  "narrowPhase w a b =
     (case periodicDelta w (e_x a) (e_y a) (e_x b) (e_y b) of (dx, dy) \<Rightarrow>
        (let minDist = e_r a + e_r b; dist2 = dx * dx + dy * dy
         in if dist2 > minDist * minDist then (a, b)
            else (case convert a b of (a1, b1) \<Rightarrow>
                   (case separate w dx dy minDist dist2 a1 b1 of ((nx, ny), a2, b2) \<Rightarrow>
                      respond nx ny a2 b2))))"

section \<open>Broad phase\<close>

text \<open>
  \<^verbatim>\<open>mod\<close> and \<^verbatim>\<open>clampIdx\<close> on cell indices, which are integers.
\<close>

definition jsrem_int :: "int \<Rightarrow> int \<Rightarrow> int" where
  "jsrem_int n m = n - m * (sgn n * sgn m * (\<bar>n\<bar> div \<bar>m\<bar>))"

definition mod_int :: "int \<Rightarrow> int \<Rightarrow> int" where
  "mod_int n m = jsrem_int (jsrem_int n m + m) m"

definition clampIdx :: "int \<Rightarrow> int \<Rightarrow> int" where
  "clampIdx ix mx = max 0 (min ix mx)"

text \<open>
  \<^verbatim>\<open>computeGridDims()\<close> and \<^verbatim>\<open>updateCellSize()\<close>, for the radius \<open>r\<close> read from the size
  control: they keep \<open>GW\<close> and \<open>GH\<close> at least 1.
\<close>

definition computeGridDims :: "world \<Rightarrow> world" where
  "computeGridDims w =
     w\<lparr>GW := max 1 \<lceil>VIEW_W w / CELL w\<rceil>, GH := max 1 \<lceil>VIEW_H w / CELL w\<rceil>\<rparr>"

definition updateCellSize :: "real \<Rightarrow> world \<Rightarrow> world" where
  "updateCellSize r w = computeGridDims (w\<lparr>CELL := max 24 (r * 2 + 6)\<rparr>)"

text \<open>
  The grid is a \<^verbatim>\<open>Map\<close> from the key \<^verbatim>\<open>ix + '|' + iy\<close> to a bucket, an array of entity
  objects. It is kept as the list of its entries in insertion order, which is the order
  of \<^verbatim>\<open>for (const [k, bucket] of grid)\<close>; a key is the pair of integers that the string
  holds and that \<^verbatim>\<open>k.split('|').map(Number)\<close> reads back; a bucket lists the positions
  of its entities in \<open>entities\<close>, one for each \<^verbatim>\<open>push\<close>.
\<close>

type_synonym grid = "((int \<times> int) \<times> nat list) list"

text \<open>
  \<^verbatim>\<open>let b = grid.get(k); if (!b) { b = []; grid.set(k, b) } b.push(e)\<close>.
\<close>

fun gridPush :: "grid \<Rightarrow> int \<times> int \<Rightarrow> nat \<Rightarrow> grid" where
  "gridPush [] k i = [(k, [i])]"
| "gridPush ((k', b) # rest) k i =
     (if k' = k then (k', b @ [i]) # rest else (k', b) # gridPush rest k i)"

text \<open>
  The cells that \<^verbatim>\<open>insertIntoGrid(e)\<close> visits, in the order of its two nested iterations (\<open>iy\<close>
  outside, \<open>ix\<close> inside). \<^verbatim>\<open>CELL\<close> is at least 24 and the grid has at least one column
  and one row.
\<close>

definition cellsOf :: "world \<Rightarrow> entity \<Rightarrow> (int \<times> int) list" where
  "cellsOf w e =
     (let minx = \<lfloor>(e_x e - e_r e) / CELL w\<rfloor>;
          maxx = \<lfloor>(e_x e + e_r e) / CELL w\<rfloor>;
          miny = \<lfloor>(e_y e - e_r e) / CELL w\<rfloor>;
          maxy = \<lfloor>(e_y e + e_r e) / CELL w\<rfloor>
      in concat (map (\<lambda>iy. map (\<lambda>ix.
           (if WRAP_ACTIVE w then mod_int ix (GW w) else clampIdx ix (GW w - 1),
            if WRAP_ACTIVE w then mod_int iy (GH w) else clampIdx iy (GH w - 1)))
           [minx..maxx]) [miny..maxy]))"

text \<open>\<^verbatim>\<open>insertIntoGrid(e)\<close> for the entity at position \<open>i\<close>.\<close>

definition insertIntoGrid :: "world \<Rightarrow> grid \<Rightarrow> nat \<times> entity \<Rightarrow> grid" where
  "insertIntoGrid w g ie = foldl (\<lambda>g' k. gridPush g' k (fst ie)) g (cellsOf w (snd ie))"

text \<open>\<^verbatim>\<open>grid.clear(); for (const e of entities) insertIntoGrid(e)\<close>.\<close>

definition buildGrid :: "world \<Rightarrow> entity list \<Rightarrow> grid" where
  "buildGrid w es = foldl (insertIntoGrid w) [] (zip [0..<length es] es)"

text \<open>
  The calls \<^verbatim>\<open>narrowPhase(a, b)\<close> that the two innermost iterations of
  \<^verbatim>\<open>handleCollisionsGrid\<close> make for a bucket and a neighbour bucket, in order. \<^verbatim>\<open>a === b\<close>
  compares objects, that is positions in \<open>entities\<close>. The ids never change.
\<close>

definition bucketPairs :: "entity list \<Rightarrow> nat list \<Rightarrow> nat list \<Rightarrow> (nat \<times> nat) list" where
  "bucketPairs es bucket nb =
     concat (map (\<lambda>a. concat (map (\<lambda>b.
       if a = b then []
       else if e_id (es ! a) > e_id (es ! b) then []
       else [(a, b)]) nb)) bucket)"

text \<open>
  The body of the iterations over \<open>dy\<close> and \<open>dx\<close> for the entry \<open>((cx, cy), bucket)\<close>: the
  neighbour cell, the two \<^verbatim>\<open>continue\<close> tests, and the calls for the two buckets.
\<close>

definition neighbourPairs ::
  "world \<Rightarrow> entity list \<Rightarrow> grid \<Rightarrow> int \<Rightarrow> int \<Rightarrow> nat list \<Rightarrow> int \<Rightarrow> int \<Rightarrow> (nat \<times> nat) list" where
  "neighbourPairs w es g cx cy bucket dx dy =
     (let nx = (if WRAP_ACTIVE w then mod_int (cx + dx) (GW w) else cx + dx);
          ny = (if WRAP_ACTIVE w then mod_int (cy + dy) (GH w) else cy + dy)
      in if nx < 0 \<or> ny < 0 \<or> nx \<ge> GW w \<or> ny \<ge> GH w then []
         else (case map_of g (nx, ny) of
                 None \<Rightarrow> []
               | Some nb \<Rightarrow> bucketPairs es bucket nb))"

text \<open>The calls made for one entry of the grid: the iterations over \<open>dy\<close> and \<open>dx\<close>.\<close>

definition cellPairs :: "world \<Rightarrow> entity list \<Rightarrow> grid \<Rightarrow> (int \<times> int) \<times> nat list \<Rightarrow> (nat \<times> nat) list" where
  "cellPairs w es g kb =
     (case kb of ((cx, cy), bucket) \<Rightarrow>
        concat (map (\<lambda>dy. concat (map (\<lambda>dx. neighbourPairs w es g cx cy bucket dx dy)
          [-1, 0, 1])) [-1, 0, 1]))"

text \<open>
  All calls of \<^verbatim>\<open>narrowPhase\<close> in one run of \<^verbatim>\<open>handleCollisionsGrid\<close>, in order. The
  grid is built from the positions at the start of the run and holds references; the
  calls change positions, velocities and types, but neither the grid nor an id, so the
  sequence of calls is fixed before the first one.
\<close>

definition collisionPairs :: "world \<Rightarrow> entity list \<Rightarrow> (nat \<times> nat) list" where
  "collisionPairs w es = (let g = buildGrid w es in concat (map (cellPairs w es g) g))"

text \<open>One call \<^verbatim>\<open>narrowPhase(a, b)\<close> on the objects at positions \<open>i\<close> and \<open>j\<close>.\<close>

definition applyNarrow :: "world \<Rightarrow> entity list \<Rightarrow> nat \<times> nat \<Rightarrow> entity list" where
  "applyNarrow w es ij =
     (case narrowPhase w (es ! fst ij) (es ! snd ij) of (a', b') \<Rightarrow>
        (es[fst ij := a'])[snd ij := b'])"

text \<open>\<^verbatim>\<open>handleCollisionsGrid()\<close>.\<close>

definition handleCollisionsGrid :: "world \<Rightarrow> world" where
  "handleCollisionsGrid w =
     w\<lparr>entities := foldl (applyNarrow w) (entities w) (collisionPairs w (entities w))\<rparr>"


section \<open>Stepping\<close>

text \<open>
  \<^verbatim>\<open>step(dt)\<close>. The two values read from the controls, \<^verbatim>\<open>spd\<close> and \<^verbatim>\<open>wrap\<close>, are
  parameters.
\<close>

definition step :: "real \<Rightarrow> real \<Rightarrow> bool \<Rightarrow> world \<Rightarrow> world" where
  "step dt spd wrap w =
     handleCollisionsGrid
       (w\<lparr>WRAP_ACTIVE := wrap,
          entities := map (update (VIEW_W w) (VIEW_H w) dt spd wrap) (entities w)\<rparr>)"

text \<open>Consecutive calls of \<^verbatim>\<open>step\<close>, one for each triple of \<open>dt\<close>, \<open>spd\<close> and \<open>wrap\<close>.\<close>

fun steps :: "(real \<times> real \<times> bool) list \<Rightarrow> world \<Rightarrow> world" where
  "steps [] w = w"
| "steps ((dt, spd, wrap) # rest) w = steps rest (step dt spd wrap w)"

section \<open>Division by zero\<close>

text \<open>
  Division and remainder with the zero divisor made explicit: \<open>None\<close> stands for the NaN
  or infinity that the program computes there.
\<close>

definition div_checked :: "real \<Rightarrow> real \<Rightarrow> real option" where
  "div_checked x y = (if y = 0 then None else Some (x / y))"

definition mod_checked :: "real \<Rightarrow> real \<Rightarrow> real option" where
  "mod_checked n m = (if m = 0 then None else Some (mod_js n m))"

text \<open>
  \<^verbatim>\<open>clampVel\<close> and the parts of \<^verbatim>\<open>narrowPhase\<close> once more, with every division by a
  value that is not a non-zero constant, and every remainder, checked.
\<close>

definition clampVel_checked :: "entity \<Rightarrow> entity option" where
  "clampVel_checked e =
     (let v2 = e_vx e * e_vx e + e_vy e * e_vy e
      in if v2 > VMAX * VMAX
         then do { s \<leftarrow> div_checked VMAX (sqrt v2);
                   Some (e\<lparr>e_vx := e_vx e * s, e_vy := e_vy e * s\<rparr>) }
         else Some e)"

definition separate_checked ::
  "world \<Rightarrow> real \<Rightarrow> real \<Rightarrow> real \<Rightarrow> real \<Rightarrow> entity \<Rightarrow> entity \<Rightarrow> ((real \<times> real) \<times> entity \<times> entity) option" where
  "separate_checked w dx dy minDist dist2 a b =
     (let dist = safeDist dist2
      in do {
        nx \<leftarrow> div_checked dx dist;
        ny \<leftarrow> div_checked dy dist;
        let overlap = max 0 ((minDist - dist) + EPS);
        let a1 = a\<lparr>e_x := e_x a - nx * overlap / 2, e_y := e_y a - ny * overlap / 2\<rparr>;
        let b1 = b\<lparr>e_x := e_x b + nx * overlap / 2, e_y := e_y b + ny * overlap / 2\<rparr>;
        if WRAP_ACTIVE w
        then do {
          ax \<leftarrow> mod_checked (e_x a1) (VIEW_W w);
          ay \<leftarrow> mod_checked (e_y a1) (VIEW_H w);
          bx \<leftarrow> mod_checked (e_x b1) (VIEW_W w);
          by \<leftarrow> mod_checked (e_y b1) (VIEW_H w);
          Some ((nx, ny), a1\<lparr>e_x := ax, e_y := ay\<rparr>, b1\<lparr>e_x := bx, e_y := by\<rparr>) }
        else Some ((nx, ny), a1, b1) })"

definition respond_checked :: "real \<Rightarrow> real \<Rightarrow> entity \<Rightarrow> entity \<Rightarrow> (entity \<times> entity) option" where
  "respond_checked nx ny a b =
     (let va = e_vx a * nx + e_vy a * ny; vb = e_vx b * nx + e_vy b * ny;
          ma = e_mass a; mb = e_mass b
      in do {
        vaAfter \<leftarrow> div_checked (va * (ma - mb) + 2 * mb * vb) (ma + mb);
        vbAfter \<leftarrow> div_checked (vb * (mb - ma) + 2 * ma * va) (ma + mb);
        let dvA = (vaAfter - va) * REST;
        let dvB = (vbAfter - vb) * REST;
        a1 \<leftarrow> clampVel_checked (a\<lparr>e_vx := e_vx a + dvA * nx, e_vy := e_vy a + dvA * ny\<rparr>);
        b1 \<leftarrow> clampVel_checked (b\<lparr>e_vx := e_vx b + dvB * nx, e_vy := e_vy b + dvB * ny\<rparr>);
        Some (a1, b1) })"

definition narrowPhase_checked :: "world \<Rightarrow> entity \<Rightarrow> entity \<Rightarrow> (entity \<times> entity) option" where
  "narrowPhase_checked w a b =
     (case periodicDelta w (e_x a) (e_y a) (e_x b) (e_y b) of (dx, dy) \<Rightarrow>
        (let minDist = e_r a + e_r b; dist2 = dx * dx + dy * dy
         in if dist2 > minDist * minDist then Some (a, b)
            else (case convert a b of (a1, b1) \<Rightarrow>
                   do { ((nx, ny), a2, b2) \<leftarrow> separate_checked w dx dy minDist dist2 a1 b1;
                        respond_checked nx ny a2 b2 })))"


section \<open>Spawning\<close>

text \<open>The helpers \<^verbatim>\<open>rand(min, max)\<close> and \<^verbatim>\<open>randVel()\<close>.\<close>

definition rand :: "real \<Rightarrow> real \<Rightarrow> world \<Rightarrow> real \<times> world" where
  "rand lo hi w = (case rngNext w of (v, w') \<Rightarrow> (v * (hi - lo) + lo, w'))"

definition randVel :: "world \<Rightarrow> (real \<times> real) \<times> world" where
  "randVel w =
     (case rngNext w of (u, w1) \<Rightarrow>
        (let angle = u * pi * 2
         in case rand (8 / 10) 2 w1 of (m, w2) \<Rightarrow>
              (let mag = m * 60 in ((cos angle * mag, sin angle * mag), w2))))"

text \<open>\<^verbatim>\<open>overlapsAny(x, y, r)\<close>: the loop returns at the first entity that overlaps.\<close>

fun overlapsAny_loop :: "entity list \<Rightarrow> real \<Rightarrow> real \<Rightarrow> real \<Rightarrow> bool" where
  "overlapsAny_loop [] x y r = False"
| "overlapsAny_loop (e # es) x y r =
     (let dx = x - e_x e; dy = y - e_y e
      in if dx * dx + dy * dy < (r + e_r e) * (r + e_r e) then True
         else overlapsAny_loop es x y r)"

definition overlapsAny :: "world \<Rightarrow> real \<Rightarrow> real \<Rightarrow> real \<Rightarrow> bool" where
  "overlapsAny w x y r = overlapsAny_loop (entities w) x y r"

text \<open>
  The loop \<^verbatim>\<open>do { x = rand(...); y = rand(...) } while (overlapsAny(x, y, radius) && ++tries < maxTries)\<close>
  of \<^verbatim>\<open>spawn\<close>, with \<^verbatim>\<open>maxTries = 50\<close>: the position found and the world with the
  generator advanced.
\<close>

function place :: "real \<Rightarrow> nat \<Rightarrow> world \<Rightarrow> (real \<times> real) \<times> world" where
  "place radius tries w =
     (case rand (radius + 2) (VIEW_W w - radius - 2) w of (x, w1) \<Rightarrow>
        (case rand (radius + 2) (VIEW_H w1 - radius - 2) w1 of (y, w2) \<Rightarrow>
           if overlapsAny w2 x y radius \<and> Suc tries < 50
           then place radius (Suc tries) w2
           else ((x, y), w2)))"
  by pat_completeness auto
termination
  by (relation "measure (\<lambda>(radius, tries, w). 50 - tries)") auto

text \<open>The body of the loop of \<^verbatim>\<open>spawn\<close>: one new entity is pushed.\<close>

definition spawnOne :: "nat \<Rightarrow> real \<Rightarrow> world \<Rightarrow> world" where
  "spawnOne typeIndex radius w =
     (case randVel w of ((vx, vy), w1) \<Rightarrow>
        (case place radius 0 w1 of ((x, y), w2) \<Rightarrow>
           w2\<lparr>entities := entities w2 @ [Entity (ENTITY_ID w2) typeIndex x y radius vx vy],
              ENTITY_ID := Suc (ENTITY_ID w2)\<rparr>))"

text \<open>
  \<^verbatim>\<open>for (let i = 0; i < n; i++)\<close>, and \<^verbatim>\<open>spawn(typeIndex, n, radius)\<close>. The count \<open>n\<close> is an
  integer, as every count that \<^verbatim>\<open>initFromControls\<close> passes is.
\<close>

function spawn_loop :: "nat \<Rightarrow> real \<Rightarrow> int \<Rightarrow> int \<Rightarrow> world \<Rightarrow> world" where
  "spawn_loop typeIndex radius n i w =
     (if i < n then spawn_loop typeIndex radius n (i + 1) (spawnOne typeIndex radius w) else w)"
  by pat_completeness auto
termination
  by (relation "measure (\<lambda>(typeIndex, radius, n, i, w). nat (n - i))") auto

definition spawn :: "nat \<Rightarrow> int \<Rightarrow> real \<Rightarrow> world \<Rightarrow> world" where
  "spawn typeIndex n radius w = spawn_loop typeIndex radius (min n MAX_ENTITIES_PER_TYPE) 0 w"

declare place.simps [simp del] spawn_loop.simps [simp del]

section \<open>Notions of the specification and sample worlds\<close>

text \<open>The speed of an entity, \<open>sqrt (vx\<^sup>2 + vy\<^sup>2)\<close>.\<close>

definition speed :: "entity \<Rightarrow> real" where
  "speed e = sqrt (e_vx e * e_vx e + e_vy e * e_vy e)"

text \<open>
  The two containment conditions of the specification, for an arena of width \<open>vw\<close> and
  height \<open>vh\<close>: the toroidal one and the one with walls.
\<close>

definition inTorus :: "real \<Rightarrow> real \<Rightarrow> entity \<Rightarrow> bool" where
  "inTorus vw vh e = (0 \<le> e_x e \<and> e_x e < vw \<and> 0 \<le> e_y e \<and> e_y e < vh)"

definition inWalls :: "real \<Rightarrow> real \<Rightarrow> entity \<Rightarrow> bool" where
  "inWalls vw vh e =
     (e_r e \<le> e_x e \<and> e_x e \<le> vw - e_r e \<and> e_r e \<le> e_y e \<and> e_y e \<le> vh - e_r e)"


text \<open>
  An 800 by 600 arena with walls, for radius 17 (\<^verbatim>\<open>CELL = Math.max(24, r * 2 + 6)\<close> is
  40, and the grid has 20 by 15 cells), with a circle and a square that overlap next
  to the left wall and both move to the left.
\<close>

definition wall_world :: world where
  "wall_world =
     \<lparr>VIEW_W = 800, VIEW_H = 600, CELL = 40, GW = 20, GH = 15, WRAP_ACTIVE = False,
      entities = [Entity 1 0 19 300 17 (- 60) 0, Entity 2 1 30 300 17 (- 120) 0],
      ENTITY_ID = 3, rngSeedStr = [], rng = 0\<rparr>"

text \<open>
  The same arena with a circle and a square whose centres coincide at (40, 20): both
  cover the cells (0, 0) and (1, 0).
\<close>

definition shared_cells_world :: world where
  "shared_cells_world =
     \<lparr>VIEW_W = 800, VIEW_H = 600, CELL = 40, GW = 20, GH = 15, WRAP_ACTIVE = False,
      entities = [Entity 1 0 40 20 17 60 0, Entity 2 1 40 20 17 0 60],
      ENTITY_ID = 3, rngSeedStr = [], rng = 0\<rparr>"

text \<open>The world \<open>shared_cells_world\<close> in wrap mode.\<close>

definition torus_world :: world where
  "torus_world =
     \<lparr>VIEW_W = 800, VIEW_H = 600, CELL = 40, GW = 20, GH = 15, WRAP_ACTIVE = True,
      entities = [Entity 1 0 40 20 17 60 0, Entity 2 1 40 20 17 0 60],
      ENTITY_ID = 3, rngSeedStr = [], rng = 0\<rparr>"

section \<open>Properties\<close>

subsection \<open>Validation\<close>

lemma getHas_defeatSetIn: "getHas bm a b \<longleftrightarrow> b \<in> defeatSetIn bm a"
  by (simp add: getHas_def defeatSetIn_def split: option.splits)

lemma checkTargets_ok:
  "checkTargets ids bm a outs = Inr () \<Longrightarrow> b \<in> set outs \<Longrightarrow>
     b \<in> set ids \<and> b \<noteq> a \<and> \<not> getHas bm b a"
  by (induction outs) (auto split: if_splits)

lemma validateEntries_ok:
  "validateEntries ids bm es = Inr () \<Longrightarrow> (a, outs) \<in> set es \<Longrightarrow>
     a \<in> set ids \<and> checkTargets ids bm a outs = Inr ()"
  by (induction es) (auto split: if_splits sum.splits)

lemma validateRulesOn_sound:
  assumes ok: "validateRulesOn ids bm = Inr ()" and d: "b \<in> defeatSetIn bm a"
  shows "a \<in> set ids \<and> b \<in> set ids \<and> b \<noteq> a \<and> a \<notin> defeatSetIn bm b"
proof -
  from d obtain outs where m: "map_of bm a = Some outs" and b: "b \<in> set outs"
    by (auto simp: defeatSetIn_def split: option.splits)
  from m have "(a, outs) \<in> set bm" by (rule map_of_SomeD)
  with ok have "a \<in> set ids" and "checkTargets ids bm a outs = Inr ()"
    using validateEntries_ok [of ids bm bm a outs] by (simp_all add: validateRulesOn_def)
  with b show ?thesis
    using checkTargets_ok [of ids bm a outs b] by (simp add: getHas_defeatSetIn)
qed

lemma validateRules_configured: "validateRules = Inr ()"
  by (simp add: validateRules_def validateRulesOn_def beatsMap_def TypeIds_def getHas_def)



text \<open>
  Claim C10. \<^verbatim>\<open>winnerOf\<close> is symmetric in its arguments for every validated beats map,
  and so for the configured one: the decided winner does not depend on which type of
  the pair is passed first.
\<close>

theorem winnerOf_symmetric:
  "(validateRulesOn ids bm = Inr () \<longrightarrow> winnerOfIn bm A B = winnerOfIn bm B A)
   \<and> winnerOf A B = winnerOf B A"
proof -
  have gen: "winnerOfIn bm' A B = winnerOfIn bm' B A"
    if ok: "validateRulesOn ids' bm' = Inr ()" for ids' bm'
    using validateRulesOn_sound [OF ok, of B A] validateRulesOn_sound [OF ok, of A B]
    by (auto simp: winnerOfIn_def getHas_defeatSetIn)
  have "winnerOf A B = winnerOf B A"
    using gen [of TypeIds beatsMap] validateRules_configured
    by (simp add: winnerOf_def validateRules_def)
  with gen show ?thesis by blast
qed

theorem winnerOf_symmetric_witness:
  "validateRulesOn TypeIds beatsMap = Inr ()
   \<and> winnerOfIn beatsMap ''circle'' ''square'' = winnerOfIn beatsMap ''square'' ''circle''
   \<and> winnerOfIn beatsMap ''circle'' ''square'' = Some ''square''"
proof -
  have ok: "validateRulesOn TypeIds beatsMap = Inr ()"
    by (simp add: validateRulesOn_def beatsMap_def TypeIds_def getHas_def)
  have v: "winnerOfIn beatsMap ''circle'' ''square'' = Some ''square''"
    by (simp add: winnerOfIn_def getHas_def beatsMap_def)
  show ?thesis
    using winnerOf_symmetric [of TypeIds beatsMap "''circle''" "''square''"] ok v by simp
qed


subsection \<open>The random stream\<close>

lemma u32_fraction:
  "0 \<le> real (unat (w :: u32)) / 4294967296 \<and> real (unat w) / 4294967296 < 1"
proof -
  have "unat w < 2 ^ 32"
    using unsigned_less [of w, where ?'a = nat] by simp
  then have "real (unat w) < real (2 ^ 32)"
    by (simp only: of_nat_less_iff)
  then have "real (unat w) < 4294967296" by simp
  moreover have "0 \<le> real (unat w)" by (rule of_nat_0_le_iff)
  ultimately show ?thesis
    by (simp only: divide_less_eq_1_pos zero_le_divide_iff) simp
qed

lemma mulberry32_range: "0 \<le> fst (mulberry32 a) \<and> fst (mulberry32 a) < 1"
  unfolding mulberry32_def Let_def fst_conv by (rule u32_fraction)

lemma rngDraws_length: "length (rngDraws n a) = n"
  by (induction n arbitrary: a) (auto split: prod.splits)

lemma rngDraws_range: "v \<in> set (rngDraws n a) \<Longrightarrow> 0 \<le> v \<and> v < 1"
proof (induction n arbitrary: a)
  case 0
  then show ?case by simp
next
  case (Suc n)
  obtain u a' where m: "mulberry32 a = (u, a')" by (cases "mulberry32 a")
  with Suc.prems have "v = u \<or> v \<in> set (rngDraws n a')" by simp
  moreover have "0 \<le> u \<and> u < 1" using mulberry32_range [of a] m by simp
  ultimately show ?case using Suc.IH by blast
qed

text \<open>
  Claim C6. Whatever the generators were before, two generators set up by \<^verbatim>\<open>setSeed\<close>
  with the same seed string produce the same first \<open>N\<close> outputs, for every \<open>N\<close>, and
  every output lies in the interval from 0 (included) to 1 (excluded).
\<close>

theorem rng_deterministic:
  "rngDraws N (rng (setSeed S w1)) = rngDraws N (rng (setSeed S w2))
   \<and> length (rngDraws N (rng (setSeed S w1))) = N
   \<and> (\<forall>v \<in> set (rngDraws N (rng (setSeed S w1))). 0 \<le> v \<and> v < 1)"
  using rngDraws_range [of _ N "rng (setSeed S w1)"]
  by (auto simp: setSeed_def Let_def rngDraws_length)

theorem rng_deterministic_witness:
  "rng (setSeed (codeUnits ''rps-12345'') wall_world) = 2544148098
   \<and> rngDraws 1 (rng (setSeed (codeUnits ''rps-12345'') wall_world)) =
       rngDraws 1 (rng (setSeed (codeUnits ''rps-12345'') (shared_cells_world\<lparr>rng := 7\<rparr>)))
   \<and> (\<exists>v. v \<in> set (rngDraws 1 (rng (setSeed (codeUnits ''rps-12345'') wall_world)))
          \<and> 0 \<le> v \<and> v < 1)"
proof -
  have s: "rng (setSeed (codeUnits ''rps-12345'') wall_world) = 2544148098"
    by (simp add: setSeed_def codeUnits_def MAX_SEED_LEN_def xfnv1a_def)
  note t = rng_deterministic [of 1 "codeUnits ''rps-12345''" wall_world
      "shared_cells_world\<lparr>rng := 7\<rparr>"]
  from t have eq: "rngDraws 1 (rng (setSeed (codeUnits ''rps-12345'') wall_world)) =
       rngDraws 1 (rng (setSeed (codeUnits ''rps-12345'') (shared_cells_world\<lparr>rng := 7\<rparr>)))"
    by blast
  from t have "length (rngDraws 1 (rng (setSeed (codeUnits ''rps-12345'') wall_world))) = 1"
    by blast
  then have "rngDraws 1 (rng (setSeed (codeUnits ''rps-12345'') wall_world)) \<noteq> []"
    by (metis length_0_conv zero_neq_one)
  then have "hd (rngDraws 1 (rng (setSeed (codeUnits ''rps-12345'') wall_world)))
      \<in> set (rngDraws 1 (rng (setSeed (codeUnits ''rps-12345'') wall_world)))"
    by (rule hd_in_set)
  then obtain v where v: "v \<in> set (rngDraws 1 (rng (setSeed (codeUnits ''rps-12345'') wall_world)))"
    by blast
  with t have "0 \<le> v \<and> v < 1" by blast
  with s eq v show ?thesis by blast
qed

subsection \<open>Evaluation of the broad and the narrow phase\<close>

lemmas grid_eval = collisionPairs_def cellPairs_def neighbourPairs_def bucketPairs_def buildGrid_def
  insertIntoGrid_def cellsOf_def clampIdx_def Let_def upto.simps

lemmas narrow_eval = narrowPhase_def periodicDelta_def convert_def separate_def respond_def
  safeDist_def clampVel_def winnerOf_def winnerOfIn_def getHas_def beatsMap_def TypeIds_def
  Let_def EPS_def REST_def VMAX_def overlapping_def applyNarrow_def

lemma sqrt_100: "sqrt 100 = 10"
  by (rule real_sqrt_unique) simp_all

lemma wall_world_update:
  "map (update 800 600 (1 / 60) 1 False) (entities wall_world) =
     [Entity 1 0 18 300 17 (- 60) 0, Entity 2 1 28 300 17 (- 120) 0]"
  by (simp add: wall_world_def Entity_def update_def bounce_def clampVel_def VMAX_def Let_def)

lemma wall_world_pairs:
  "collisionPairs (wall_world\<lparr>entities := es'\<rparr>)
     [Entity 1 0 18 300 17 (- 60) 0, Entity 2 1 28 300 17 (- 120) 0] = [(0, 1), (0, 1)]"
  by (simp add: grid_eval wall_world_def Entity_def)

lemma wall_world_overlapping:
  "overlapping (wall_world\<lparr>entities := es'\<rparr>)
     (Entity 1 0 18 300 17 (- 60) 0) (Entity 2 1 28 300 17 (- 120) 0)"
  by (simp add: overlapping_def periodicDelta_def wall_world_def Entity_def)

lemma wall_world_narrow:
  "foldl (applyNarrow (wall_world\<lparr>entities := es'\<rparr>))
     [Entity 1 0 18 300 17 (- 60) 0, Entity 2 1 28 300 17 (- 120) 0] [(0, 1), (0, 1)] =
     [(Entity 1 1 (11999 / 2000) 300 17 (- 120) 0),
      (Entity 2 1 (80001 / 2000) 300 17 (- 60) 0)]"
  by (simp add: narrow_eval wall_world_def Entity_def sqrt_100)

lemma wall_world_step:
  "entities (step (1 / 60) 1 False wall_world) =
     [(Entity 1 1 (11999 / 2000) 300 17 (- 120) 0),
      (Entity 2 1 (80001 / 2000) 300 17 (- 60) 0)]"
proof -
  have w: "VIEW_W wall_world = 800" "VIEW_H wall_world = 600"
    by (simp_all add: wall_world_def)
  have e: "wall_world\<lparr>WRAP_ACTIVE := False, entities := es'\<rparr> = wall_world\<lparr>entities := es'\<rparr>" for es'
    by (simp add: wall_world_def)
  have s: "entities (w'\<lparr>entities := es'\<rparr>) = es'" for w' :: world and es'
    by simp
  show ?thesis
    by (simp only: step_def handleCollisionsGrid_def w e s wall_world_update wall_world_pairs
        wall_world_narrow)
qed

subsection \<open>The number of entities\<close>

lemma applyNarrow_length: "length (applyNarrow w es ij) = length es"
  by (simp add: applyNarrow_def split: prod.splits)

lemma foldl_applyNarrow_length: "length (foldl (applyNarrow w) es ps) = length es"
  by (induction ps arbitrary: es) (simp_all add: applyNarrow_length)

lemma step_length: "length (entities (step dt spd wrap w)) = length (entities w)"
  by (simp add: step_def handleCollisionsGrid_def foldl_applyNarrow_length)

lemma steps_length: "length (entities (steps cs w)) = length (entities w)"
  by (induction cs arbitrary: w) (auto simp: step_length)

text \<open>
  Claim C3. A call of \<^verbatim>\<open>step\<close> leaves the number of entities unchanged, and so does
  any sequence of consecutive calls, whatever \<open>dt\<close>, the speed and the wall mode of each
  call are: collisions replace entities in place and never add or remove one.
\<close>

theorem entity_count_invariant:
  "length (entities (step dt spd wrap w)) = length (entities w)
   \<and> length (entities (steps cs w)) = length (entities w)"
  by (simp add: step_length steps_length)

subsection \<open>Invariants of the collision pass\<close>

lemma applyNarrow_invariant:
  assumes np: "\<And>a b. narrowPhase w a b = (a, b)
                 \<or> (P (fst (narrowPhase w a b)) \<and> P (snd (narrowPhase w a b)))"
    and es: "\<forall>e \<in> set es. P e"
  shows "\<forall>e \<in> set (applyNarrow w es ij). P e"
proof -
  obtain a' b' where n: "narrowPhase w (es ! fst ij) (es ! snd ij) = (a', b')"
    by (cases "narrowPhase w (es ! fst ij) (es ! snd ij)")
  from np [of "es ! fst ij" "es ! snd ij"]
  show ?thesis
  proof
    assume "narrowPhase w (es ! fst ij) (es ! snd ij) = (es ! fst ij, es ! snd ij)"
    then have "applyNarrow w es ij = es" by (simp add: applyNarrow_def)
    with es show ?thesis by simp
  next
    assume "P (fst (narrowPhase w (es ! fst ij) (es ! snd ij))) \<and>
            P (snd (narrowPhase w (es ! fst ij) (es ! snd ij)))"
    with n have ab: "P a'" "P b'" by simp_all
    have "set (applyNarrow w es ij) \<subseteq> insert b' (insert a' (set es))"
      using set_update_subset_insert [of "es[fst ij := a']" "snd ij" b']
            set_update_subset_insert [of es "fst ij" a'] n
      by (auto simp: applyNarrow_def)
    with ab es show ?thesis by auto
  qed
qed

lemma foldl_applyNarrow_invariant:
  assumes np: "\<And>a b. narrowPhase w a b = (a, b)
                 \<or> (P (fst (narrowPhase w a b)) \<and> P (snd (narrowPhase w a b)))"
  shows "\<forall>e \<in> set es. P e \<Longrightarrow> \<forall>e \<in> set (foldl (applyNarrow w) es ps). P e"
proof (induction ps arbitrary: es)
  case Nil
  then show ?case by simp
next
  case (Cons p ps)
  from applyNarrow_invariant [of w P es p, OF np Cons.prems]
  have "\<forall>e \<in> set (applyNarrow w es p). P e" .
  from Cons.IH [OF this] show ?case by simp
qed

subsection \<open>The speed cap\<close>

lemma clampVel_speed: "speed (clampVel e) \<le> VMAX"
proof (cases "e_vx e * e_vx e + e_vy e * e_vy e > VMAX * VMAX")
  case True
  define v2 where "v2 = e_vx e * e_vx e + e_vy e * e_vy e"
  define s where "s = VMAX / sqrt v2"
  have pos: "0 < v2" using True by (simp add: v2_def VMAX_def)
  have s0: "0 \<le> s" using pos by (simp add: s_def VMAX_def)
  have "e_vx e * s * (e_vx e * s) + e_vy e * s * (e_vy e * s) = s * s * v2"
    by (simp add: v2_def algebra_simps)
  then have "speed (clampVel e) = sqrt (s * s * v2)"
    using True by (simp add: speed_def clampVel_def Let_def v2_def s_def)
  also have "\<dots> = s * sqrt v2"
    using s0 by (simp add: real_sqrt_mult)
  also have "\<dots> = VMAX"
    using pos by (simp add: s_def)
  finally show ?thesis by simp
next
  case False
  then have "e_vx e * e_vx e + e_vy e * e_vy e \<le> VMAX * VMAX" by simp
  then have "sqrt (e_vx e * e_vx e + e_vy e * e_vy e) \<le> sqrt (VMAX * VMAX)"
    by (simp only: real_sqrt_le_iff)
  then show ?thesis using False by (simp add: speed_def clampVel_def Let_def VMAX_def)
qed

lemma update_speed: "speed (update vw vh dt spd wrap e) \<le> VMAX"
  by (simp add: update_def Let_def clampVel_speed)

lemma respond_speed:
  "speed (fst (respond nx ny a b)) \<le> VMAX \<and> speed (snd (respond nx ny a b)) \<le> VMAX"
  by (simp add: respond_def Let_def clampVel_speed)

lemma narrowPhase_cases:
  "narrowPhase w a b = (a, b) \<or>
   (speed (fst (narrowPhase w a b)) \<le> VMAX \<and> speed (snd (narrowPhase w a b)) \<le> VMAX)"
  by (auto simp: narrowPhase_def Let_def respond_speed split: prod.splits)

lemma narrowPhase_overlapping_speed:
  "overlapping w a b \<Longrightarrow>
     speed (fst (narrowPhase w a b)) \<le> VMAX \<and> speed (snd (narrowPhase w a b)) \<le> VMAX"
  by (auto simp: narrowPhase_def overlapping_def Let_def respond_speed split: prod.splits)

lemma step_speed: "\<forall>e \<in> set (entities (step dt spd wrap w)). speed e \<le> VMAX"
proof -
  let ?w = "w\<lparr>WRAP_ACTIVE := wrap,
              entities := map (update (VIEW_W w) (VIEW_H w) dt spd wrap) (entities w)\<rparr>"
  have u: "\<forall>e \<in> set (map (update (VIEW_W w) (VIEW_H w) dt spd wrap) (entities w)).
             speed e \<le> VMAX"
    by (simp add: update_speed)
  from foldl_applyNarrow_invariant [of ?w "\<lambda>e. speed e \<le> VMAX", OF narrowPhase_cases u]
  show ?thesis by (simp add: step_def handleCollisionsGrid_def)
qed

text \<open>
  Claim C4. After a complete step every entity's speed \<open>sqrt (vx\<^sup>2 + vy\<^sup>2)\<close> is at
  most \<^verbatim>\<open>VMAX\<close>: the clamp ends \<^verbatim>\<open>Entity.update\<close>, and it ends \<^verbatim>\<open>narrowPhase\<close> for both
  entities of every pair that passes the overlap test, the only two places where a
  velocity changes. (In the model the arithmetic is exact, so the bound holds without
  a tolerance.)
\<close>

theorem velocity_cap:
  "(\<forall>e \<in> set (entities (step dt spd wrap w)). speed e \<le> VMAX)
   \<and> speed (update vw vh dt spd wrap e0) \<le> VMAX
   \<and> (overlapping w a b \<longrightarrow>
        speed (fst (narrowPhase w a b)) \<le> VMAX \<and> speed (snd (narrowPhase w a b)) \<le> VMAX)"
  using step_speed [of dt spd wrap w] update_speed [of vw vh dt spd wrap e0]
    narrowPhase_overlapping_speed [of w a b]
  by blast

theorem velocity_cap_witness:
  "entities (step (1 / 60) 1 False wall_world) ! 0 = Entity 1 1 (11999 / 2000) 300 17 (- 120) 0
   \<and> speed (entities (step (1 / 60) 1 False wall_world) ! 0) \<le> VMAX
   \<and> overlapping wall_world (Entity 1 0 18 300 17 (- 60) 0) (Entity 2 1 28 300 17 (- 120) 0)
   \<and> speed (fst (narrowPhase wall_world
        (Entity 1 0 18 300 17 (- 60) 0) (Entity 2 1 28 300 17 (- 120) 0))) \<le> VMAX"
proof -
  have m: "entities (step (1 / 60) 1 False wall_world) ! 0
             \<in> set (entities (step (1 / 60) 1 False wall_world))"
    by (simp add: wall_world_step)
  have o: "overlapping wall_world (Entity 1 0 18 300 17 (- 60) 0) (Entity 2 1 28 300 17 (- 120) 0)"
    using wall_world_overlapping [of "entities wall_world"] by simp
  show ?thesis
    using velocity_cap [of "1 / 60" 1 False wall_world 800 600 "Entity 1 0 19 300 17 (- 60) 0"
        "Entity 1 0 18 300 17 (- 60) 0" "Entity 2 1 28 300 17 (- 120) 0"] m o
    by (simp only: wall_world_step nth_Cons_0)
qed

subsection \<open>Containment in the arena\<close>

text \<open>
  In wrap mode every position is wrapped at the end of \<^verbatim>\<open>Entity.update\<close> and again
  after the separation of \<^verbatim>\<open>narrowPhase\<close>, so the toroidal bounds hold after a step in
  an arena of positive width and height. With walls, \<^verbatim>\<open>Entity.update\<close> leaves an entity
  that fits into the arena within the walls, but \<^verbatim>\<open>narrowPhase\<close> moves entities
  afterwards without looking at the walls.
\<close>

lemma clampVel_frame:
  "e_id (clampVel e) = e_id e \<and> e_t (clampVel e) = e_t e \<and> e_r (clampVel e) = e_r e
   \<and> e_mass (clampVel e) = e_mass e \<and> e_side (clampVel e) = e_side e
   \<and> e_base (clampVel e) = e_base e \<and> e_x (clampVel e) = e_x e \<and> e_y (clampVel e) = e_y e"
  by (simp add: clampVel_def Let_def)

lemma jsrem_bounds:
  assumes "0 < m"
  shows "- m < jsrem n m \<and> jsrem n m < m \<and> (0 \<le> n \<longrightarrow> 0 \<le> jsrem n m)"
proof -
  define q where "q = n / m"
  have n: "n = m * q" using assms by (simp add: q_def)
  have fl: "of_int \<lfloor>q\<rfloor> \<le> q" "q < of_int \<lfloor>q\<rfloor> + 1" by linarith+
  have ce: "q \<le> of_int \<lceil>q\<rceil>" "of_int \<lceil>q\<rceil> < q + 1" by linarith+
  show ?thesis
  proof (cases "q < 0")
    case True
    then have r: "jsrem n m = m * (q - of_int \<lceil>q\<rceil>)"
      by (simp add: jsrem_def trunc_def q_def [symmetric] n algebra_simps)
    have d: "- 1 < q - of_int \<lceil>q\<rceil>" "q - of_int \<lceil>q\<rceil> \<le> 0" using ce by linarith+
    have "m * (- 1) < m * (q - of_int \<lceil>q\<rceil>)"
      using d(1) assms by (rule mult_strict_left_mono)
    then have lo: "- m < jsrem n m" using r by simp
    have "m * (q - of_int \<lceil>q\<rceil>) \<le> m * 0"
      using d(2) assms by (intro mult_left_mono) simp_all
    then have "jsrem n m \<le> 0" using r by simp
    with assms have hi: "jsrem n m < m" by linarith
    have "n < 0" using True assms by (simp add: q_def divide_less_0_iff)
    with lo hi show ?thesis by simp
  next
    case False
    then have r: "jsrem n m = m * (q - of_int \<lfloor>q\<rfloor>)"
      by (simp add: jsrem_def trunc_def q_def [symmetric] n algebra_simps)
    have d: "0 \<le> q - of_int \<lfloor>q\<rfloor>" "q - of_int \<lfloor>q\<rfloor> < 1" using fl by linarith+
    have "m * 0 \<le> m * (q - of_int \<lfloor>q\<rfloor>)"
      using d(1) assms by (intro mult_left_mono) simp_all
    then have lo: "0 \<le> jsrem n m" using r by simp
    have "m * (q - of_int \<lfloor>q\<rfloor>) < m * 1"
      using d(2) assms by (rule mult_strict_left_mono)
    then have hi: "jsrem n m < m" using r by simp
    from lo hi assms show ?thesis by simp
  qed
qed

lemma mod_js_range:
  assumes "0 < m"
  shows "0 \<le> mod_js n m \<and> mod_js n m < m"
proof -
  have "0 \<le> jsrem n m + m" using jsrem_bounds [OF assms, of n] by simp
  with jsrem_bounds [OF assms, of "jsrem n m + m"] show ?thesis
    by (simp add: mod_js_def)
qed

lemma update_wrap_inTorus:
  "0 < vw \<Longrightarrow> 0 < vh \<Longrightarrow> inTorus vw vh (update vw vh dt spd True e)"
  using mod_js_range [of vw] mod_js_range [of vh]
  by (simp add: update_def inTorus_def Let_def clampVel_frame)

lemma bounce_inWalls:
  assumes "2 * e_r e \<le> vw" and "2 * e_r e \<le> vh"
  shows "inWalls vw vh (bounce vw vh e)"
proof -
  define e1 where "e1 = (if e_x e - e_r e < 0 then e\<lparr>e_x := e_r e, e_vx := \<bar>e_vx e\<bar>\<rparr> else e)"
  define e2 where "e2 = (if e_x e1 + e_r e1 > vw then e1\<lparr>e_x := vw - e_r e1, e_vx := - \<bar>e_vx e1\<bar>\<rparr> else e1)"
  define e3 where "e3 = (if e_y e2 - e_r e2 < 0 then e2\<lparr>e_y := e_r e2, e_vy := \<bar>e_vy e2\<bar>\<rparr> else e2)"
  define e4 where "e4 = (if e_y e3 + e_r e3 > vh then e3\<lparr>e_y := vh - e_r e3, e_vy := - \<bar>e_vy e3\<bar>\<rparr> else e3)"
  have b: "bounce vw vh e = e4"
    by (simp only: bounce_def Let_def e1_def e2_def e3_def e4_def)
  have r1: "e_r e1 = e_r e" and x1: "e_r e \<le> e_x e1" and y1: "e_y e1 = e_y e"
    by (simp_all add: e1_def)
  have r2: "e_r e2 = e_r e" and x2: "e_r e \<le> e_x e2 \<and> e_x e2 \<le> vw - e_r e"
    and y2: "e_y e2 = e_y e"
    using assms(1) r1 x1 y1 by (simp_all add: e2_def)
  have r3: "e_r e3 = e_r e" and x3: "e_x e3 = e_x e2" and y3: "e_r e \<le> e_y e3"
    using r2 by (simp_all add: e3_def)
  have r4: "e_r e4 = e_r e" and x4: "e_x e4 = e_x e2"
    and y4: "e_r e \<le> e_y e4 \<and> e_y e4 \<le> vh - e_r e"
    using assms(2) r3 x3 y3 by (simp_all add: e4_def)
  from r4 x4 y4 x2 show ?thesis by (simp add: b inWalls_def)
qed

lemma update_walls_inWalls:
  assumes "2 * e_r e \<le> vw" and "2 * e_r e \<le> vh"
  shows "inWalls vw vh (update vw vh dt spd False e)"
proof -
  let ?e1 = "e\<lparr>e_x := e_x e + e_vx e * (dt * spd), e_y := e_y e + e_vy e * (dt * spd)\<rparr>"
  have "inWalls vw vh (bounce vw vh ?e1)"
    using assms by (intro bounce_inWalls) simp_all
  moreover have "update vw vh dt spd False e = clampVel (bounce vw vh ?e1)"
    by (simp add: update_def Let_def)
  ultimately show ?thesis by (simp add: inWalls_def clampVel_frame)
qed

lemma separate_wrap_inTorus:
  assumes "WRAP_ACTIVE w" and "0 < VIEW_W w" and "0 < VIEW_H w"
    and "separate w dx dy md d2 a b = (n, a', b')"
  shows "inTorus (VIEW_W w) (VIEW_H w) a' \<and> inTorus (VIEW_W w) (VIEW_H w) b'"
  using assms mod_js_range [of "VIEW_W w"] mod_js_range [of "VIEW_H w"]
  by (auto simp: separate_def inTorus_def Let_def)

lemma respond_position:
  "respond nx ny a b = (a', b') \<Longrightarrow>
     e_x a' = e_x a \<and> e_y a' = e_y a \<and> e_x b' = e_x b \<and> e_y b' = e_y b"
  by (auto simp: respond_def Let_def clampVel_frame)

lemma narrowPhase_wrap_cases:
  assumes "WRAP_ACTIVE w" and "0 < VIEW_W w" and "0 < VIEW_H w"
  shows "narrowPhase w a b = (a, b)
     \<or> (inTorus (VIEW_W w) (VIEW_H w) (fst (narrowPhase w a b))
        \<and> inTorus (VIEW_W w) (VIEW_H w) (snd (narrowPhase w a b)))"
proof -
  obtain dx dy where pd: "periodicDelta w (e_x a) (e_y a) (e_x b) (e_y b) = (dx, dy)"
    by (cases "periodicDelta w (e_x a) (e_y a) (e_x b) (e_y b)")
  show ?thesis
  proof (cases "overlapping w a b")
    case False
    with pd show ?thesis by (simp add: narrowPhase_def overlapping_def Let_def)
  next
    case True
    obtain a1 b1 where cv: "convert a b = (a1, b1)" by (cases "convert a b")
    obtain n a2 b2 where
      sp: "separate w dx dy (e_r a + e_r b) (dx * dx + dy * dy) a1 b1 = (n, a2, b2)"
      by (cases "separate w dx dy (e_r a + e_r b) (dx * dx + dy * dy) a1 b1") auto
    obtain a3 b3 where rs: "respond (fst n) (snd n) a2 b2 = (a3, b3)"
      by (cases "respond (fst n) (snd n) a2 b2")
    from True pd cv sp rs have np: "narrowPhase w a b = (a3, b3)"
      by (cases n) (simp add: narrowPhase_def overlapping_def Let_def)
    from separate_wrap_inTorus [OF assms sp] respond_position [OF rs]
    have "inTorus (VIEW_W w) (VIEW_H w) a3 \<and> inTorus (VIEW_W w) (VIEW_H w) b3"
      by (simp add: inTorus_def)
    with np show ?thesis by simp
  qed
qed

lemma step_wrap_inTorus:
  assumes "0 < VIEW_W w" and "0 < VIEW_H w"
  shows "\<forall>e \<in> set (entities (step dt spd True w)). inTorus (VIEW_W w) (VIEW_H w) e"
proof -
  let ?w = "w\<lparr>WRAP_ACTIVE := True,
              entities := map (update (VIEW_W w) (VIEW_H w) dt spd True) (entities w)\<rparr>"
  have u: "\<forall>e \<in> set (map (update (VIEW_W w) (VIEW_H w) dt spd True) (entities w)).
             inTorus (VIEW_W w) (VIEW_H w) e"
    using assms by (simp add: update_wrap_inTorus)
  have np: "narrowPhase ?w a b = (a, b)
     \<or> (inTorus (VIEW_W w) (VIEW_H w) (fst (narrowPhase ?w a b))
        \<and> inTorus (VIEW_W w) (VIEW_H w) (snd (narrowPhase ?w a b)))" for a b
    using narrowPhase_wrap_cases [of ?w a b] assms by simp
  from foldl_applyNarrow_invariant [of ?w "inTorus (VIEW_W w) (VIEW_H w)", OF np u]
  show ?thesis by (simp add: step_def handleCollisionsGrid_def)
qed

lemma sample_worlds_grid:
  "updateCellSize 17 wall_world = wall_world
   \<and> updateCellSize 17 shared_cells_world = shared_cells_world"
  by (simp add: updateCellSize_def computeGridDims_def wall_world_def shared_cells_world_def)


text \<open>
  Claim C2. In the arena with walls \<open>wall_world\<close>, where both entities start within the
  walls, one step of 1/60 s at speed 1 moves the first entity to \<open>x = 5.9995\<close>, left
  of \<open>x = radius = 17\<close>: it has been pushed across the left wall by the separation of
  \<^verbatim>\<open>narrowPhase\<close>, which wraps the new positions in wrap mode but does not clamp them in
  wall mode. After this step the containment of the claim does not hold.
\<close>

theorem step_pushes_across_wall:
  "inWalls 800 600 (entities wall_world ! 0) \<and> inWalls 800 600 (entities wall_world ! 1)
   \<and> entities (step (1 / 60) 1 False wall_world) ! 0 = Entity 1 1 (11999 / 2000) 300 17 (- 120) 0
   \<and> e_x (entities (step (1 / 60) 1 False wall_world) ! 0) = 11999 / 2000
   \<and> e_r (entities (step (1 / 60) 1 False wall_world) ! 0) = 17
   \<and> \<not> inWalls 800 600 (entities (step (1 / 60) 1 False wall_world) ! 0)"
proof -
  have "inWalls 800 600 (entities wall_world ! 0) \<and> inWalls 800 600 (entities wall_world ! 1)"
    by (simp add: wall_world_def inWalls_def Entity_def)
  moreover have "\<not> inWalls 800 600 (Entity 1 1 (11999 / 2000) 300 17 (- 120) 0)"
    by (simp add: inWalls_def Entity_def)
  ultimately show ?thesis
    by (simp add: wall_world_step) (simp add: Entity_def)
qed

subsection \<open>The pairs of the collision pass\<close>




















subsection \<open>Explicit zero divisors\<close>










lemma torus_zero_width:
  "narrowPhase_checked (torus_world\<lparr>VIEW_W := 0\<rparr>) (Entity 1 0 40 20 17 60 0) (Entity 2 1 40 20 17 0 60) = None"
  by (simp add: narrowPhase_checked_def separate_checked_def div_checked_def mod_checked_def
      periodicDelta_def convert_def safeDist_def winnerOf_def winnerOfIn_def getHas_def beatsMap_def TypeIds_def
       Let_def EPS_def torus_world_def Entity_def)


subsection \<open>Conversion\<close>

lemma TypeIds_nonempty: "i < length TypeIds \<Longrightarrow> TypeIds ! i \<noteq> []"
  by (auto simp: TypeIds_def nth_Cons' )

lemma winnerOf_cases: "winnerOf x y = None \<or> winnerOf x y = Some x \<or> winnerOf x y = Some y"
  by (simp add: winnerOf_def winnerOfIn_def)

lemma winnerOf_self: "winnerOf x y = Some y \<Longrightarrow> x \<noteq> y"
  by (auto simp: winnerOf_def winnerOfIn_def split: if_splits)

lemma convert_frame:
  "fst (convert a b) = a\<lparr>e_t := e_t (fst (convert a b))\<rparr>
   \<and> snd (convert a b) = b\<lparr>e_t := e_t (snd (convert a b))\<rparr>"
  by (simp add: convert_def Let_def split: option.splits)

lemma convert_None:
  "winnerOf (TypeIds ! e_t a) (TypeIds ! e_t b) = None \<Longrightarrow> convert a b = (a, b)"
  by (simp add: convert_def Let_def)

lemma convert_first_wins:
  "e_t a < length TypeIds \<Longrightarrow> winnerOf (TypeIds ! e_t a) (TypeIds ! e_t b) = Some (TypeIds ! e_t a) \<Longrightarrow>
     convert a b = (a, b\<lparr>e_t := e_t a\<rparr>)"
  by (simp add: convert_def Let_def TypeIds_nonempty)

lemma convert_second_wins:
  "e_t b < length TypeIds \<Longrightarrow> winnerOf (TypeIds ! e_t a) (TypeIds ! e_t b) = Some (TypeIds ! e_t b) \<Longrightarrow>
     convert a b = (a\<lparr>e_t := e_t b\<rparr>, b)"
  using winnerOf_self [of "TypeIds ! e_t a" "TypeIds ! e_t b"]
  by (auto simp add: convert_def Let_def TypeIds_nonempty)

lemma convert_winner:
  assumes "e_t a < length TypeIds" and "e_t b < length TypeIds"
    and "winnerOf (TypeIds ! e_t a) (TypeIds ! e_t b) = Some win"
  shows "TypeIds ! e_t (fst (convert a b)) = win \<and> TypeIds ! e_t (snd (convert a b)) = win"
proof -
  from winnerOf_cases [of "TypeIds ! e_t a" "TypeIds ! e_t b"] assms(3)
  have "win = TypeIds ! e_t a \<or> win = TypeIds ! e_t b" by auto
  then show ?thesis
  proof
    assume "win = TypeIds ! e_t a"
    with assms show ?thesis using convert_first_wins [of a b] by simp
  next
    assume "win = TypeIds ! e_t b"
    with assms show ?thesis using convert_second_wins [of b a] by simp
  qed
qed

lemma separate_frame:
  "separate w dx dy md d2 a b = (n, a', b') \<Longrightarrow>
     e_id a' = e_id a \<and> e_t a' = e_t a \<and> e_r a' = e_r a \<and> e_mass a' = e_mass a
     \<and> e_side a' = e_side a \<and> e_base a' = e_base a
     \<and> e_id b' = e_id b \<and> e_t b' = e_t b \<and> e_r b' = e_r b \<and> e_mass b' = e_mass b
     \<and> e_side b' = e_side b \<and> e_base b' = e_base b"
  by (auto simp: separate_def Let_def split: if_splits)

lemma respond_frame:
  "respond nx ny a b = (a', b') \<Longrightarrow>
     e_id a' = e_id a \<and> e_t a' = e_t a \<and> e_r a' = e_r a \<and> e_mass a' = e_mass a
     \<and> e_side a' = e_side a \<and> e_base a' = e_base a
     \<and> e_id b' = e_id b \<and> e_t b' = e_t b \<and> e_r b' = e_r b \<and> e_mass b' = e_mass b
     \<and> e_side b' = e_side b \<and> e_base b' = e_base b"
  by (auto simp: respond_def Let_def clampVel_frame)

lemma convert_fields:
  "convert a b = (a', b') \<Longrightarrow>
     e_id a' = e_id a \<and> e_r a' = e_r a \<and> e_mass a' = e_mass a
     \<and> e_side a' = e_side a \<and> e_base a' = e_base a
     \<and> e_id b' = e_id b \<and> e_r b' = e_r b \<and> e_mass b' = e_mass b
     \<and> e_side b' = e_side b \<and> e_base b' = e_base b"
  by (auto simp: convert_def Let_def split: option.splits if_splits)

lemma narrowPhase_frame:
  assumes "narrowPhase w a b = (a', b')"
  shows "e_id a' = e_id a \<and> e_r a' = e_r a \<and> e_mass a' = e_mass a
     \<and> e_side a' = e_side a \<and> e_base a' = e_base a
     \<and> e_id b' = e_id b \<and> e_r b' = e_r b \<and> e_mass b' = e_mass b
     \<and> e_side b' = e_side b \<and> e_base b' = e_base b
     \<and> (if overlapping w a b
         then e_t a' = e_t (fst (convert a b)) \<and> e_t b' = e_t (snd (convert a b))
         else a' = a \<and> b' = b)"
proof -
  obtain dx dy where pd: "periodicDelta w (e_x a) (e_y a) (e_x b) (e_y b) = (dx, dy)"
    by (cases "periodicDelta w (e_x a) (e_y a) (e_x b) (e_y b)")
  show ?thesis
  proof (cases "overlapping w a b")
    case False
    with assms pd show ?thesis by (simp add: narrowPhase_def overlapping_def Let_def)
  next
    case True
    obtain a1 b1 where cv: "convert a b = (a1, b1)" by (cases "convert a b")
    obtain n a2 b2 where
      sp: "separate w dx dy (e_r a + e_r b) (dx * dx + dy * dy) a1 b1 = (n, a2, b2)"
      by (cases "separate w dx dy (e_r a + e_r b) (dx * dx + dy * dy) a1 b1") auto
    from True assms pd cv sp have rs: "respond (fst n) (snd n) a2 b2 = (a', b')"
      by (simp add: narrowPhase_def overlapping_def Let_def split: prod.splits)
    from convert_fields [OF cv] separate_frame [OF sp] respond_frame [OF rs] True cv
    show ?thesis by simp
  qed
qed


text \<open>
  Claim C9. For a pair that passes the overlap test and whose type indices are indices
  of the registry: when the types have a decided winner, after \<^verbatim>\<open>narrowPhase\<close> both
  entities have the winner's type, the loser having received the winner's index; with
  no winner (equal types, or a pair the beats map does not decide) both types are
  unchanged. \<^verbatim>\<open>narrowPhase\<close> never changes an id, a radius, a mass, a side or a base,
  and the conversion itself changes no field but the type: its results are the two
  entities with their new types and everything else, positions and velocities
  included, as before.
\<close>

theorem conversion_changes_type_only:
  assumes "e_t a < length TypeIds" and "e_t b < length TypeIds"
    and "overlapping w a b" and "narrowPhase w a b = (a', b')"
  shows "(\<forall>win. winnerOf (TypeIds ! e_t a) (TypeIds ! e_t b) = Some win \<longrightarrow>
            TypeIds ! e_t a' = win \<and> TypeIds ! e_t b' = win
            \<and> (win = TypeIds ! e_t a \<longrightarrow> e_t a' = e_t a \<and> e_t b' = e_t a)
            \<and> (win \<noteq> TypeIds ! e_t a \<longrightarrow> e_t a' = e_t b \<and> e_t b' = e_t b))
         \<and> (winnerOf (TypeIds ! e_t a) (TypeIds ! e_t b) = None \<longrightarrow>
              e_t a' = e_t a \<and> e_t b' = e_t b)
         \<and> e_id a' = e_id a \<and> e_r a' = e_r a \<and> e_mass a' = e_mass a
         \<and> e_side a' = e_side a \<and> e_base a' = e_base a
         \<and> e_id b' = e_id b \<and> e_r b' = e_r b \<and> e_mass b' = e_mass b
         \<and> e_side b' = e_side b \<and> e_base b' = e_base b
         \<and> convert a b = (a\<lparr>e_t := e_t a'\<rparr>, b\<lparr>e_t := e_t b'\<rparr>)"
proof -
  from narrowPhase_frame [OF assms(4)] assms(3)
  have fr: "e_id a' = e_id a \<and> e_r a' = e_r a \<and> e_mass a' = e_mass a
       \<and> e_side a' = e_side a \<and> e_base a' = e_base a
       \<and> e_id b' = e_id b \<and> e_r b' = e_r b \<and> e_mass b' = e_mass b
       \<and> e_side b' = e_side b \<and> e_base b' = e_base b"
    and ty: "e_t a' = e_t (fst (convert a b))" "e_t b' = e_t (snd (convert a b))"
    by simp_all
  have cv: "convert a b = (a\<lparr>e_t := e_t a'\<rparr>, b\<lparr>e_t := e_t b'\<rparr>)"
    using convert_frame [of a b] ty by (simp add: prod_eq_iff)
  have none: "winnerOf (TypeIds ! e_t a) (TypeIds ! e_t b) = None \<longrightarrow>
      e_t a' = e_t a \<and> e_t b' = e_t b"
    using convert_None [of a b] ty by auto
  have some: "TypeIds ! e_t a' = win \<and> TypeIds ! e_t b' = win
            \<and> (win = TypeIds ! e_t a \<longrightarrow> e_t a' = e_t a \<and> e_t b' = e_t a)
            \<and> (win \<noteq> TypeIds ! e_t a \<longrightarrow> e_t a' = e_t b \<and> e_t b' = e_t b)"
    if win: "winnerOf (TypeIds ! e_t a) (TypeIds ! e_t b) = Some win" for win
  proof -
    from winnerOf_cases [of "TypeIds ! e_t a" "TypeIds ! e_t b"] win
    have "win = TypeIds ! e_t a \<or> win = TypeIds ! e_t b" by auto
    moreover have "win = TypeIds ! e_t a \<Longrightarrow> convert a b = (a, b\<lparr>e_t := e_t a\<rparr>)"
      using convert_first_wins [OF assms(1), of b] win by simp
    moreover have "win \<noteq> TypeIds ! e_t a \<Longrightarrow> convert a b = (a\<lparr>e_t := e_t b\<rparr>, b)"
      using convert_second_wins [OF assms(2), of a] win calculation(1) by auto
    ultimately show ?thesis using ty by (cases "win = TypeIds ! e_t a") auto
  qed
  from fr cv none some show ?thesis by blast
qed

lemma wall_world_narrowPhase:
  "narrowPhase wall_world (Entity 1 0 18 300 17 (- 60) 0) (Entity 2 1 28 300 17 (- 120) 0) =
     (Entity 1 1 (11999 / 2000) 300 17 (- 120) 0, Entity 2 1 (80001 / 2000) 300 17 (- 60) 0)"
  by (simp add: narrow_eval wall_world_def Entity_def sqrt_100)

theorem conversion_changes_type_only_witness:
  "e_t (Entity 1 0 18 300 17 (- 60) 0) < length TypeIds
   \<and> e_t (Entity 2 1 28 300 17 (- 120) 0) < length TypeIds
   \<and> overlapping wall_world (Entity 1 0 18 300 17 (- 60) 0) (Entity 2 1 28 300 17 (- 120) 0)
   \<and> narrowPhase wall_world (Entity 1 0 18 300 17 (- 60) 0) (Entity 2 1 28 300 17 (- 120) 0) =
     (Entity 1 1 (11999 / 2000) 300 17 (- 120) 0, Entity 2 1 (80001 / 2000) 300 17 (- 60) 0)
   \<and> winnerOf (TypeIds ! 0) (TypeIds ! 1) = Some ''square''
   \<and> convert (Entity 1 0 18 300 17 (- 60) 0) (Entity 2 1 28 300 17 (- 120) 0) =
       (Entity 1 1 18 300 17 (- 60) 0, Entity 2 1 28 300 17 (- 120) 0)"
proof -
  have t: "e_t (Entity 1 0 18 300 17 (- 60) 0) < length TypeIds"
    "e_t (Entity 2 1 28 300 17 (- 120) 0) < length TypeIds"
    by (simp_all add: Entity_def TypeIds_def)
  have o: "overlapping wall_world (Entity 1 0 18 300 17 (- 60) 0) (Entity 2 1 28 300 17 (- 120) 0)"
    using wall_world_overlapping [of "entities wall_world"] by simp
  have win: "winnerOf (TypeIds ! 0) (TypeIds ! 1) = Some ''square''"
    by (simp add: winnerOf_def winnerOfIn_def getHas_def beatsMap_def TypeIds_def)
  from conversion_changes_type_only [OF t o wall_world_narrowPhase]
  have "convert (Entity 1 0 18 300 17 (- 60) 0) (Entity 2 1 28 300 17 (- 120) 0) =
       ((Entity 1 0 18 300 17 (- 60) 0)\<lparr>e_t := e_t (Entity 1 1 (11999 / 2000) 300 17 (- 120) 0)\<rparr>,
        (Entity 2 1 28 300 17 (- 120) 0)\<lparr>e_t := e_t (Entity 2 1 (80001 / 2000) 300 17 (- 60) 0)\<rparr>)"
    by blast
  then have "convert (Entity 1 0 18 300 17 (- 60) 0) (Entity 2 1 28 300 17 (- 120) 0) =
       (Entity 1 1 18 300 17 (- 60) 0, Entity 2 1 28 300 17 (- 120) 0)"
    by (simp add: Entity_def)
  with t o win wall_world_narrowPhase show ?thesis by blast
qed


subsection \<open>Spawning\<close>

lemma rngNext_entities: "entities (snd (rngNext w)) = entities w"
  by (simp add: rngNext_def split: prod.splits)

lemma rand_entities: "entities (snd (rand lo hi w)) = entities w"
  using rngNext_entities [of w] by (auto simp: rand_def split: prod.splits)

lemma randVel_entities: "entities (snd (randVel w)) = entities w"
proof -
  obtain u w1 where a: "rngNext w = (u, w1)" by (cases "rngNext w")
  obtain m w2 where b: "rand (8 / 10) 2 w1 = (m, w2)" by (cases "rand (8 / 10) 2 w1")
  from a b rngNext_entities [of w] rand_entities [of "8 / 10" 2 w1]
  show ?thesis by (simp add: randVel_def Let_def)
qed

lemma place_entities: "entities (snd (place radius tries w)) = entities w"
proof (induction radius tries w rule: place.induct)
  case (1 radius tries w)
  obtain x w1 where a: "rand (radius + 2) (VIEW_W w - radius - 2) w = (x, w1)"
    by (cases "rand (radius + 2) (VIEW_W w - radius - 2) w")
  obtain y w2 where b: "rand (radius + 2) (VIEW_H w1 - radius - 2) w1 = (y, w2)"
    by (cases "rand (radius + 2) (VIEW_H w1 - radius - 2) w1")
  have e: "entities w2 = entities w"
    using rand_entities [of "radius + 2" "VIEW_W w - radius - 2" w]
      rand_entities [of "radius + 2" "VIEW_H w1 - radius - 2" w1] a b by simp
  show ?case
  proof (cases "overlapsAny w2 x y radius \<and> Suc tries < 50")
    case True
    with "1.IH" [OF a [symmetric] b [symmetric] True] a b e show ?thesis
      by (simp add: place.simps [of radius tries w])
  next
    case False
    with a b e show ?thesis by (auto simp: place.simps [of radius tries w])
  qed
qed

lemma spawnOne_entities:
  "\<exists>e. entities (spawnOne typeIndex radius w) = entities w @ [e]
       \<and> e_t e = typeIndex \<and> e_r e = radius"
proof -
  obtain vx vy w1 where a: "randVel w = ((vx, vy), w1)" by (cases "randVel w") auto
  obtain x y w2 where b: "place radius 0 w1 = ((x, y), w2)" by (cases "place radius 0 w1") auto
  have "entities w2 = entities w"
    using randVel_entities [of w] place_entities [of radius 0 w1] a b by simp
  with a b show ?thesis by (simp add: spawnOne_def Entity_def)
qed

lemma spawn_loop_entities:
  "\<exists>new. entities (spawn_loop typeIndex radius n i w) = entities w @ new
       \<and> length new = nat (n - i) \<and> (\<forall>e \<in> set new. e_t e = typeIndex \<and> e_r e = radius)"
proof (induction typeIndex radius n i w rule: spawn_loop.induct)
  case (1 typeIndex radius n i w)
  show ?case
  proof (cases "i < n")
    case False
    then show ?thesis by (simp add: spawn_loop.simps [of typeIndex radius n i w])
  next
    case True
    obtain e where e: "entities (spawnOne typeIndex radius w) = entities w @ [e]"
      "e_t e = typeIndex" "e_r e = radius"
      using spawnOne_entities [of typeIndex radius w] by blast
    from "1.IH" [OF True] obtain new where
      n: "entities (spawn_loop typeIndex radius n (i + 1) (spawnOne typeIndex radius w))
            = entities (spawnOne typeIndex radius w) @ new"
      "length new = nat (n - (i + 1))" "\<forall>e \<in> set new. e_t e = typeIndex \<and> e_r e = radius"
      by blast
    have "entities (spawn_loop typeIndex radius n i w) = entities w @ (e # new)"
      using True e n by (simp add: spawn_loop.simps [of typeIndex radius n i w])
    moreover have "length (e # new) = nat (n - i)" using True n(2) by simp
    moreover have "\<forall>e' \<in> set (e # new). e_t e' = typeIndex \<and> e_r e' = radius"
      using e n(3) by simp
    ultimately show ?thesis by blast
  qed
qed

text \<open>
  Claim C7. \<^verbatim>\<open>spawn(typeIndex, n, radius)\<close> appends to the entities exactly
  \<open>min n 500\<close> new ones for every count \<open>n \<ge> 0\<close> (none for a negative \<open>n\<close>), all of
  the requested type and radius; a request for 10000 appends exactly 500. The function
  has no error result: the excess is dropped.
\<close>

theorem spawn_appends:
  "\<exists>new. entities (spawn typeIndex n radius w) = entities w @ new
      \<and> int (length new) = max 0 (min n 500)
      \<and> (0 \<le> n \<longrightarrow> int (length new) = min n 500)
      \<and> (n = 10000 \<longrightarrow> length new = 500)
      \<and> (\<forall>e \<in> set new. e_t e = typeIndex \<and> e_r e = radius)"
proof -
  from spawn_loop_entities [of typeIndex radius "min n MAX_ENTITIES_PER_TYPE" 0 w]
  obtain new where n: "entities (spawn typeIndex n radius w) = entities w @ new"
    "length new = nat (min n 500)" "\<forall>e \<in> set new. e_t e = typeIndex \<and> e_r e = radius"
    by (auto simp: spawn_def MAX_ENTITIES_PER_TYPE_def)
  from n(2) have "int (length new) = max 0 (min n 500)" by simp
  moreover from n(2) have "0 \<le> n \<longrightarrow> int (length new) = min n 500" by simp
  moreover from n(2) have "n = 10000 \<longrightarrow> length new = 500" by simp
  ultimately show ?thesis using n(1,3) by blast
qed

theorem spawn_appends_witness:
  "\<exists>new. entities (spawn 0 10000 17 wall_world) = entities wall_world @ new
      \<and> (0::int) \<le> 10000 \<and> length new = 500
      \<and> (\<forall>e \<in> set new. e_t e = 0 \<and> e_r e = 17)
      \<and> new \<noteq> []"
proof -
  from spawn_appends [of 0 10000 17 wall_world]
  obtain new where n: "entities (spawn 0 10000 17 wall_world) = entities wall_world @ new"
    "length new = 500" "\<forall>e \<in> set new. e_t e = 0 \<and> e_r e = 17"
    by auto
  from n(2) have "new \<noteq> []" by auto
  with n show ?thesis by auto
qed

end
